theory Spec2Isabelle
  imports Main "HOL-Library.Multiset"
begin

section \<open>Python values the supervisor works with\<close>

text \<open>
  Exceptions of the source are values. \<open>OSError n\<close> carries the errno;
  \<open>ValueError\<close> is what \<open>int()\<close> and \<open>list.remove\<close> raise.
\<close>

datatype exn = ValueError | OSError nat | AttributeError | TypeError

section \<open>Queue spec parser\<close>

subsection \<open>String primitives of Python used by the parser\<close>

text \<open>
  Strings are byte strings (Python 2 \<open>str\<close>). \<open>isspace\<close> is the whitespace of
  \<open>str.strip()\<close> and of \<open>int()\<close>: space, tab, newline, vertical tab, form feed,
  carriage return.
\<close>

definition isspace :: "char \<Rightarrow> bool" where
  "isspace c \<longleftrightarrow> c \<in> set [CHR '' '', CHR 0x09, CHR 0x0A, CHR 0x0B, CHR 0x0C, CHR 0x0D]"

definition isdigit :: "char \<Rightarrow> bool" where
  "isdigit c \<longleftrightarrow> c \<in> set ''0123456789''"

text \<open>\<open>s.strip()\<close>: whitespace removed at both ends.\<close>

definition strip :: "string \<Rightarrow> string" where
  "strip s = rev (dropWhile isspace (rev (dropWhile isspace s)))"

text \<open>\<open>s.split(c)\<close>: never the empty list; \<open>''''.split(c)\<close> is \<open>['''']\<close>.\<close>

fun split :: "char \<Rightarrow> string \<Rightarrow> string list" where
  "split c [] = ['''']"
| "split c (x # xs) =
     (if x = c then [] # split c xs
      else (case split c xs of [] \<Rightarrow> [x # []] | y # ys \<Rightarrow> (x # y) # ys))"

text \<open>\<open>s.split(c, 1)\<close>: at most one cut, at the first \<open>c\<close>.\<close>

definition split1 :: "char \<Rightarrow> string \<Rightarrow> string list" where
  "split1 c s =
     (if c \<in> set s then [takeWhile (\<lambda>x. x \<noteq> c) s, tl (dropWhile (\<lambda>x. x \<noteq> c) s)]
      else [s])"

text \<open>
  \<open>int(s)\<close> in base 10: surrounding whitespace is dropped, one sign is allowed,
  then one or more decimal digits and nothing else; anything else raises ValueError.
\<close>

definition digit_value :: "char \<Rightarrow> nat" where
  "digit_value c = of_char c - 48"

definition digits_value :: "string \<Rightarrow> nat" where
  "digits_value ds = foldl (\<lambda>a c. 10 * a + digit_value c) 0 ds"

definition py_int :: "string \<Rightarrow> exn + int" where
  "py_int s =
     (let t = strip s;
          neg = (take 1 t = ''-'');
          body = (if take 1 t = ''-'' \<or> take 1 t = ''+'' then drop 1 t else t)
      in if body \<noteq> [] \<and> list_all isdigit body
         then Inr (if neg then - int (digits_value body) else int (digits_value body))
         else Inl ValueError)"

subsection \<open>The parser\<close>

text \<open>
  \<open>parse_count\<close>: \<open>int(parts[0]) * [parts[1]]\<close>; a list times a negative integer or
  zero is the empty list.
\<close>

definition parse_count :: "string \<Rightarrow> exn + string list" where
  "parse_count q =
     (let parts = split1 (CHR ''*'') q
      in if length parts > 1
         then (case py_int (parts ! 0) of
                 Inl e \<Rightarrow> Inl e
               | Inr n \<Rightarrow> Inr (replicate (nat n) (parts ! 1)))
         else Inr [parts ! 0])"

text \<open>\<open>parse_local\<close>; the host name is what \<open>socket.gethostname()\<close> returns.\<close>

definition parse_local :: "string \<Rightarrow> string \<Rightarrow> string" where
  "parse_local hostname q =
     (if take 1 q = ''@'' then drop 1 q @ ''_'' @ hostname else q)"

text \<open>
  \<open>itertools.chain.from_iterable\<close> over the results of \<open>parse_count\<close>: the first
  exception met while the chain is consumed ends the whole call.
\<close>

fun chain_from_iterable :: "(exn + 'a list) list \<Rightarrow> exn + 'a list" where
  "chain_from_iterable [] = Inr []"
| "chain_from_iterable (Inl e # rs) = Inl e"
| "chain_from_iterable (Inr xs # rs) =
     (case chain_from_iterable rs of Inl e \<Rightarrow> Inl e | Inr ys \<Rightarrow> Inr (xs @ ys))"

definition parse_queues_str :: "string \<Rightarrow> string \<Rightarrow> exn + string list" where
  "parse_queues_str hostname s =
     (let queues = map strip (split (CHR '','') s)
      in case chain_from_iterable (map parse_count queues) of
           Inl e \<Rightarrow> Inl e
         | Inr qs \<Rightarrow> Inr (map (parse_local hostname) qs))"

subsection \<open>The parser as the specification words it\<close>




text \<open>\<open>sep.join(names)\<close>, and the plain names of the idempotence property.\<close>

fun join :: "string \<Rightarrow> string list \<Rightarrow> string" where
  "join sep [] = []"
| "join sep [x] = x"
| "join sep (x # y # ys) = x @ sep @ join sep (y # ys)"

definition plain_name :: "string \<Rightarrow> bool" where
  "plain_name n \<longleftrightarrow>
     CHR ''*'' \<notin> set n \<and> CHR '','' \<notin> set n \<and> take 1 n \<noteq> ''@'' \<and>
     (n = [] \<or> (\<not> isspace (hd n) \<and> \<not> isspace (last n)))"


section \<open>The Master\<close>

subsection \<open>State and environment\<close>

datatype signal = SIGTERM | SIGKILL

text \<open>
  A worker handle. \<open>wid\<close> is the identity of the Python object (handles are compared by
  identity in \<open>list.remove\<close>); \<open>pid\<close> is the process id the system gave to its process.
\<close>

record worker =
  wid :: nat
  pid :: nat
  queue_name :: string

text \<open>What the Master does to the operating system, oldest first.\<close>

datatype event = Start nat string | Kill nat signal | KillPg nat signal

record config =
  WORKERS :: "string \<Rightarrow> string option"
  has_path :: bool

text \<open>
  The attributes of \<open>Master\<close> set in \<open>__init__\<close>, with the number of worker objects
  created so far (the identity of the next one) and the trace of system calls.
\<close>

record master =
  config :: config
  workers :: "worker list"
  shutdown_pending :: bool
  override_queues :: "string option"
  spawned :: nat
  trace :: "event list"

text \<open>
  What the Master reads from outside: the host name, whether standard input is a
  terminal, the answer of \<open>is_alive()\<close> for a handle at a tick of the monitor loop, the
  process id given to the n-th worker started, the errno with which \<open>os.kill\<close> and
  \<open>os.killpg\<close> fail after a given history (\<open>None\<close> when they succeed), what
  \<open>config.reload()\<close> reads, and the attribute names inherited from the process class.
\<close>

record env =
  hostname :: string
  isatty :: bool
  is_alive :: "nat \<Rightarrow> nat \<Rightarrow> bool"
  new_pid :: "nat \<Rightarrow> nat"
  os_kill :: "event list \<Rightarrow> nat \<Rightarrow> signal \<Rightarrow> nat option"
  os_killpg :: "event list \<Rightarrow> nat \<Rightarrow> signal \<Rightarrow> nat option"
  config_reload :: "config \<Rightarrow> config"
  inherited_attrs :: "string list"

subsection \<open>Starting and stopping workers\<close>

text \<open>\<open>Worker(queue, self.config)\<close> followed by \<open>start()\<close>.\<close>

definition new_worker :: "env \<Rightarrow> string \<Rightarrow> master \<Rightarrow> worker \<times> master" where
  "new_worker env q m =
     (let w = \<lparr>wid = spawned m, pid = new_pid env (spawned m), queue_name = q\<rparr>
      in (w, m\<lparr>spawned := Suc (spawned m), trace := trace m @ [Start (pid w) q]\<rparr>))"

text \<open>
  \<open>_get_queues\<close>: \<open>override_queues\<close> when it is set and not empty, else the entry of
  the host in \<open>config.WORKERS\<close>, else (KeyError) the default queue.
\<close>

definition host_queues :: "env \<Rightarrow> master \<Rightarrow> string" where
  "host_queues env m =
     (case WORKERS (config m) (hostname env) of
        Some q \<Rightarrow> q
      | None \<Rightarrow> ''kuyruk'')"

definition get_queues :: "env \<Rightarrow> master \<Rightarrow> string" where
  "get_queues env m =
     (case override_queues m of
        None \<Rightarrow> host_queues env m
      | Some q \<Rightarrow> (if q \<noteq> [] then q else host_queues env m))"

fun start_each :: "env \<Rightarrow> string list \<Rightarrow> master \<Rightarrow> master" where
  "start_each env [] m = m"
| "start_each env (q # qs) m =
     (case new_worker env q m of
        (w, m1) \<Rightarrow> start_each env qs (m1\<lparr>workers := workers m1 @ [w]\<rparr>))"

definition start_workers :: "env \<Rightarrow> master \<Rightarrow> (exn + unit) \<times> master" where
  "start_workers env m =
     (case parse_queues_str (hostname env) (get_queues env m) of
        Inl e \<Rightarrow> (Inl e, m)
      | Inr queues \<Rightarrow> (Inr (), start_each env queues m))"

text \<open>The loop of \<open>stop_workers\<close>: an \<open>OSError\<close> of \<open>os.kill\<close> ends it.\<close>

fun stop_each :: "env \<Rightarrow> worker list \<Rightarrow> signal \<Rightarrow> master \<Rightarrow> (exn + unit) \<times> master" where
  "stop_each env [] sg m = (Inr (), m)"
| "stop_each env (w # ws) sg m =
     (case os_kill env (trace m) (pid w) sg of
        Some errno \<Rightarrow> (Inl (OSError errno), m)
      | None \<Rightarrow> stop_each env ws sg (m\<lparr>trace := trace m @ [Kill (pid w) sg]\<rparr>))"

definition stop_workers ::
  "env \<Rightarrow> worker list option \<Rightarrow> bool \<Rightarrow> master \<Rightarrow> (exn + unit) \<times> master" where
  "stop_workers env ws kill m =
     stop_each env (case ws of None \<Rightarrow> workers m | Some l \<Rightarrow> l)
       (if kill then SIGKILL else SIGTERM) m"

subsection \<open>The monitor loop\<close>

text \<open>\<open>xs.remove(x)\<close> raises ValueError when \<open>x\<close> is not in the list.\<close>

definition py_remove :: "'a \<Rightarrow> 'a list \<Rightarrow> exn + 'a list" where
  "py_remove x xs = (if x \<in> set xs then Inr (remove1 x xs) else Inl ValueError)"

definition kill_pg :: "env \<Rightarrow> worker \<Rightarrow> master \<Rightarrow> (exn + unit) \<times> master" where
  "kill_pg env w m =
     (case os_killpg env (trace m) (pid w) SIGKILL of
        None \<Rightarrow> (Inr (), m\<lparr>trace := trace m @ [KillPg (pid w) SIGKILL]\<rparr>)
      | Some errno \<Rightarrow> (if errno \<noteq> 3 then (Inl (OSError errno), m) else (Inr (), m)))"

definition spawn_new_worker :: "env \<Rightarrow> worker \<Rightarrow> master \<Rightarrow> (exn + unit) \<times> master" where
  "spawn_new_worker env w m =
     (case new_worker env (queue_name w) m of
        (nw, m1) \<Rightarrow>
          (let m2 = m1\<lparr>workers := workers m1 @ [nw]\<rparr>
           in case py_remove w (workers m2) of
                Inl e \<Rightarrow> (Inl e, m2)
              | Inr ws \<Rightarrow> (Inr (), m2\<lparr>workers := ws\<rparr>)))"

text \<open>
  One pass of the \<open>for\<close> loop over \<open>list(self.workers)\<close>, at tick \<open>t\<close>; the flag is
  \<open>any_alive\<close>.
\<close>

fun wait_tick ::
  "env \<Rightarrow> nat \<Rightarrow> worker list \<Rightarrow> bool \<Rightarrow> master \<Rightarrow> (exn + bool) \<times> master" where
  "wait_tick env t [] any_alive m = (Inr any_alive, m)"
| "wait_tick env t (w # ws) any_alive m =
     (if is_alive env t (wid w) then wait_tick env t ws True m
      else if \<not> shutdown_pending m then
        (case kill_pg env w m of
           (Inl e, m1) \<Rightarrow> (Inl e, m1)
         | (Inr u, m1) \<Rightarrow>
             (case spawn_new_worker env w m1 of
                (Inl e, m2) \<Rightarrow> (Inl e, m2)
              | (Inr u, m2) \<Rightarrow> wait_tick env t ws True m2))
      else
        (case py_remove w (workers m) of
           Inl e \<Rightarrow> (Inl e, m)
         | Inr rest \<Rightarrow> wait_tick env t ws any_alive (m\<lparr>workers := rest\<rparr>)))"

text \<open>
  The \<open>while any_alive\<close> loop, from tick \<open>t\<close> on. It need not end: \<open>None\<close> is the loop
  that runs forever.
\<close>

partial_function (option) wait_loop ::
  "env \<Rightarrow> nat \<Rightarrow> master \<Rightarrow> ((exn + unit) \<times> master) option" where
  "wait_loop env t m =
     (case wait_tick env t (workers m) False m of
        (Inl e, m1) \<Rightarrow> Some (Inl e, m1)
      | (Inr any_alive, m1) \<Rightarrow>
          (if any_alive then wait_loop env (Suc t) m1 else Some (Inr (), m1)))"

definition wait_for_workers :: "env \<Rightarrow> master \<Rightarrow> ((exn + unit) \<times> master) option" where
  "wait_for_workers env m = wait_loop env 0 m"

subsection \<open>Signal handlers and reload\<close>

definition handle_sigterm :: "env \<Rightarrow> master \<Rightarrow> (exn + unit) \<times> master" where
  "handle_sigterm env m = stop_workers env None False (m\<lparr>shutdown_pending := True\<rparr>)"

definition handle_sigquit :: "env \<Rightarrow> master \<Rightarrow> (exn + unit) \<times> master" where
  "handle_sigquit env m = stop_workers env None True (m\<lparr>shutdown_pending := True\<rparr>)"

definition handle_sigint :: "env \<Rightarrow> master \<Rightarrow> (exn + unit) \<times> master" where
  "handle_sigint env m =
     (if isatty env \<and> \<not> shutdown_pending m then handle_sigterm env m
      else handle_sigquit env m)"

definition reload :: "env \<Rightarrow> master \<Rightarrow> (exn + unit) \<times> master" where
  "reload env m =
     (let old_workers = workers m
      in if has_path (config m)
         then (let m1 = m\<lparr>config := config_reload env (config m)\<rparr>;
                   m2 = m1\<lparr>workers := []\<rparr>
               in case start_workers env m2 of
                    (Inl e, m3) \<Rightarrow> (Inl e, m3)
                  | (Inr u, m3) \<Rightarrow> stop_workers env (Some old_workers) False m3)
         else stop_workers env (Some old_workers) False m)"

definition handle_sighup :: "env \<Rightarrow> master \<Rightarrow> (exn + unit) \<times> master" where
  "handle_sighup env m = reload env m"

subsection \<open>The manager link\<close>

text \<open>
  A control message is a name with positional and keyword arguments. The arguments are
  plain data, as a message carries them.
\<close>

datatype pyval = PNone | PBool bool | PInt int | PStr string | PList "pyval list"

type_synonym message = "string \<times> pyval list \<times> (string \<times> pyval) list"

text \<open>
  Binding the arguments of a call to the parameters of a method (\<open>self\<close> left out):
  too many positional arguments, an unknown keyword, a parameter given twice and a
  required parameter left out all raise TypeError.
\<close>

fun bind_kwargs ::
  "string list \<Rightarrow> (string \<times> pyval) list \<Rightarrow> (string \<Rightarrow> pyval option)
   \<Rightarrow> exn + (string \<Rightarrow> pyval option)" where
  "bind_kwargs params [] b = Inr b"
| "bind_kwargs params ((k, v) # kws) b =
     (if k \<notin> set params \<or> b k \<noteq> None then Inl TypeError
      else bind_kwargs params kws (b(k \<mapsto> v)))"

definition bind_args ::
  "string list \<Rightarrow> string list \<Rightarrow> pyval list \<Rightarrow> (string \<times> pyval) list
   \<Rightarrow> exn + (string \<Rightarrow> pyval option)" where
  "bind_args params required args kwargs =
     (if length args > length params then Inl TypeError
      else (case bind_kwargs params kwargs (map_of (zip params args)) of
              Inl e \<Rightarrow> Inl e
            | Inr b \<Rightarrow> (if list_all (\<lambda>p. b p \<noteq> None) required then Inr b
                        else Inl TypeError)))"

fun truthy :: "pyval \<Rightarrow> bool" where
  "truthy PNone = False"
| "truthy (PBool b) = b"
| "truthy (PInt i) = (i \<noteq> 0)"
| "truthy (PStr s) = (s \<noteq> [])"
| "truthy (PList xs) = (xs \<noteq> [])"

text \<open>
  What \<open>getattr(self, f)\<close> finds. \<open>Callable\<close>: a method whose call is modelled here.
  \<open>NotCallable\<close>: an attribute holding a list, a boolean, a string, None or a number;
  calling it raises TypeError. \<open>Unmodelled\<close>: an attribute whose call is outside this
  model (the loops, \<open>run\<close>, the configuration object, whatever the process class
  provides).
\<close>

datatype meth =
  M_reload | M_stop_workers | M_start_workers | M_get_queues
  | M_handle_sigterm | M_handle_sigquit | M_handle_sigint | M_handle_sighup

datatype attr = Callable meth | NotCallable | Unmodelled

definition master_getattr :: "env \<Rightarrow> string \<Rightarrow> attr option" where
  "master_getattr env f =
     (if f = ''reload'' then Some (Callable M_reload)
      else if f = ''stop_workers'' then Some (Callable M_stop_workers)
      else if f = ''_start_workers'' then Some (Callable M_start_workers)
      else if f = ''_get_queues'' then Some (Callable M_get_queues)
      else if f = ''_handle_sigterm'' then Some (Callable M_handle_sigterm)
      else if f = ''_handle_sigquit'' then Some (Callable M_handle_sigquit)
      else if f = ''_handle_sigint'' then Some (Callable M_handle_sigint)
      else if f = ''_handle_sighup'' then Some (Callable M_handle_sighup)
      else if f \<in> set [''workers'', ''shutdown_pending'', ''override_queues'',
                        ''started'', ''uptime''] then Some NotCallable
      else if f \<in> set [''run'', ''_wait_for_workers'', ''_spawn_new_worker'', ''_kill_pg'',
                        ''_register_signals'', ''_send_status'', ''config'']
              \<or> f \<in> set (inherited_attrs env) then Some Unmodelled
      else None)"

text \<open>
  \<open>stop_workers\<close> called with plain data for \<open>workers\<close>: None stands for the worker
  set; an empty list or string gives a loop that does nothing; an element of a list or
  a string has no \<open>pid\<close> (AttributeError); a number or a boolean cannot be iterated
  (TypeError).
\<close>

definition call_stop_workers ::
  "env \<Rightarrow> pyval \<Rightarrow> pyval \<Rightarrow> master \<Rightarrow> (exn + unit) \<times> master" where
  "call_stop_workers env ws kill m =
     (case ws of
        PNone \<Rightarrow> stop_workers env None (truthy kill) m
      | PList xs \<Rightarrow> (if xs = [] then (Inr (), m) else (Inl AttributeError, m))
      | PStr s \<Rightarrow> (if s = [] then (Inr (), m) else (Inl AttributeError, m))
      | PBool b \<Rightarrow> (Inl TypeError, m)
      | PInt i \<Rightarrow> (Inl TypeError, m))"

definition call_method ::
  "env \<Rightarrow> meth \<Rightarrow> pyval list \<Rightarrow> (string \<times> pyval) list \<Rightarrow> master
   \<Rightarrow> (exn + unit) \<times> master" where
  "call_method env f args kwargs m =
     (case f of
        M_stop_workers \<Rightarrow>
          (case bind_args [''workers'', ''kill''] [] args kwargs of
             Inl e \<Rightarrow> (Inl e, m)
           | Inr b \<Rightarrow>
               call_stop_workers env
                 (case b ''workers'' of None \<Rightarrow> PNone | Some v \<Rightarrow> v)
                 (case b ''kill'' of None \<Rightarrow> PBool False | Some v \<Rightarrow> v) m)
      | M_reload \<Rightarrow>
          (case bind_args [] [] args kwargs of
             Inl e \<Rightarrow> (Inl e, m) | Inr b \<Rightarrow> reload env m)
      | M_start_workers \<Rightarrow>
          (case bind_args [] [] args kwargs of
             Inl e \<Rightarrow> (Inl e, m) | Inr b \<Rightarrow> start_workers env m)
      | M_get_queues \<Rightarrow>
          (case bind_args [] [] args kwargs of
             Inl e \<Rightarrow> (Inl e, m) | Inr b \<Rightarrow> (Inr (), m))
      | M_handle_sigterm \<Rightarrow>
          (case bind_args [''signum'', ''frame''] [''signum'', ''frame''] args kwargs of
             Inl e \<Rightarrow> (Inl e, m) | Inr b \<Rightarrow> handle_sigterm env m)
      | M_handle_sigquit \<Rightarrow>
          (case bind_args [''signum'', ''frame''] [''signum'', ''frame''] args kwargs of
             Inl e \<Rightarrow> (Inl e, m) | Inr b \<Rightarrow> handle_sigquit env m)
      | M_handle_sigint \<Rightarrow>
          (case bind_args [''signum'', ''frame''] [''signum'', ''frame''] args kwargs of
             Inl e \<Rightarrow> (Inl e, m) | Inr b \<Rightarrow> handle_sigint env m)
      | M_handle_sighup \<Rightarrow>
          (case bind_args [''signum'', ''frame''] [''signum'', ''frame''] args kwargs of
             Inl e \<Rightarrow> (Inl e, m) | Inr b \<Rightarrow> handle_sighup env m))"

text \<open>
  The \<open>else\<close> branch after \<open>receive_message\<close>: \<open>getattr(self, f)\<close>, then the call.
  \<open>None\<close>: the attribute found is outside this model.
\<close>

definition dispatch :: "env \<Rightarrow> message \<Rightarrow> master \<Rightarrow> ((exn + unit) \<times> master) option" where
  "dispatch env msg m =
     (case msg of (f, args, kwargs) \<Rightarrow>
        (case master_getattr env f of
           None \<Rightarrow> Some (Inl AttributeError, m)
         | Some NotCallable \<Rightarrow> Some (Inl TypeError, m)
         | Some Unmodelled \<Rightarrow> None
         | Some (Callable meth) \<Rightarrow> Some (call_method env meth args kwargs m)))"

text \<open>
  One pass of the inner loop of \<open>_send_status\<close>. \<open>sent\<close> is false when \<open>send_message\<close>
  raises \<open>socket.error\<close>; \<open>received\<close> is \<open>None\<close> when \<open>receive_message\<close> raises it.
  The handlers around the loop catch \<open>socket.error\<close> only, and none of the exceptions
  of a dispatched call is one: such an exception leaves both loops and ends the thread.
\<close>

datatype link = Connected | Reconnect | Ended exn

definition send_status_pass ::
  "env \<Rightarrow> bool \<Rightarrow> message option \<Rightarrow> master \<Rightarrow> (link \<times> master) option" where
  "send_status_pass env sent received m =
     (if \<not> sent then Some (Reconnect, m)
      else (case received of
              None \<Rightarrow> Some (Connected, m)
            | Some msg \<Rightarrow>
                (case dispatch env msg m of
                   None \<Rightarrow> None
                 | Some (Inl e, m1) \<Rightarrow> Some (Ended e, m1)
                 | Some (Inr u, m1) \<Rightarrow> Some (Connected, m1))))"

subsection \<open>Descriptions used in the statements\<close>

text \<open>
  The handles created for a list of queue names when \<open>n\<close> worker objects exist already:
  the identities are \<open>n\<close>, \<open>n + 1\<close>, ... in the order of the names.
\<close>

fun fresh_workers :: "env \<Rightarrow> nat \<Rightarrow> string list \<Rightarrow> worker list" where
  "fresh_workers env n [] = []"
| "fresh_workers env n (q # qs) =
     \<lparr>wid = n, pid = new_pid env n, queue_name = q\<rparr> # fresh_workers env (Suc n) qs"

text \<open>
  The system calls expected for a list of dead workers, after history \<open>h\<close>: for each
  of them in turn, the kill of its process group (recorded when the group was there; the
  failure with errno 3 leaves no record), then the start of one process for the same
  queue name.
\<close>

fun respawn_events :: "env \<Rightarrow> event list \<Rightarrow> nat \<Rightarrow> worker list \<Rightarrow> event list" where
  "respawn_events env h n [] = h"
| "respawn_events env h n (w # ws) =
     respawn_events env
       (h @ (case os_killpg env h (pid w) SIGKILL of
               None \<Rightarrow> [KillPg (pid w) SIGKILL]
             | Some errno \<Rightarrow> [])
          @ [Start (new_pid env n) (queue_name w)])
       (Suc n) ws"

text \<open>The names \<open>Master\<close> defines: its instance attributes, its methods, its property.\<close>

definition master_attr_names :: "string list" where
  "master_attr_names =
     [''config'', ''workers'', ''shutdown_pending'', ''override_queues'', ''started'',
      ''run'', ''_start_workers'', ''_get_queues'', ''stop_workers'', ''_wait_for_workers'',
      ''_spawn_new_worker'', ''_kill_pg'', ''_register_signals'', ''_handle_sigterm'',
      ''_handle_sigquit'', ''_handle_sigint'', ''_handle_sighup'', ''reload'',
      ''_send_status'', ''uptime'']"

subsection \<open>A concrete Master\<close>

text \<open>
  Host \<open>h\<close> with three workers on the queues a, b and c. The first worker lives for two
  ticks, the others are dead from the start. The process group of pid 101 is gone
  (errno 3); for pid 666 the kill of the group is refused (errno 1) and the process is
  gone (errno 3). Reloading the configuration gives the queue spec \<open>2*a,@b\<close>, or, in the
  second environment, the malformed \<open>x*foo\<close>.
\<close>

definition demo_env :: env where
  "demo_env =
     \<lparr>hostname = ''h'', isatty = True,
      is_alive = (\<lambda>t i. i = 0 \<and> t < 2),
      new_pid = (\<lambda>n. 100 + n),
      os_kill = (\<lambda>h p sg. if p = 666 then Some 3 else None),
      os_killpg = (\<lambda>h p sg. if p = 101 then Some 3 else if p = 666 then Some 1 else None),
      config_reload = (\<lambda>c. c\<lparr>WORKERS := (WORKERS c)(''h'' \<mapsto> ''2*a,@b'')\<rparr>),
      inherited_attrs = [''start'', ''join'', ''terminate'', ''is_alive'', ''pid'', ''name'',
                         ''daemon'', ''exitcode'']\<rparr>"

definition demo_env_bad_spec :: env where
  "demo_env_bad_spec =
     demo_env\<lparr>config_reload := (\<lambda>c. c\<lparr>WORKERS := (WORKERS c)(''h'' \<mapsto> ''x*foo'')\<rparr>)\<rparr>"

definition demo_master :: master where
  "demo_master =
     \<lparr>config = \<lparr>WORKERS = [''h'' \<mapsto> ''a,b,c''], has_path = True\<rparr>,
      workers = [\<lparr>wid = 0, pid = 100, queue_name = ''a''\<rparr>,
                 \<lparr>wid = 1, pid = 101, queue_name = ''b''\<rparr>,
                 \<lparr>wid = 2, pid = 102, queue_name = ''c''\<rparr>],
      shutdown_pending = False, override_queues = None, spawned = 3,
      trace = [Start 100 ''a'', Start 101 ''b'', Start 102 ''c'']\<rparr>"

definition demo_stale :: master where
  "demo_stale =
     demo_master\<lparr>workers := [\<lparr>wid = 0, pid = 666, queue_name = ''a''\<rparr>,
                              \<lparr>wid = 1, pid = 101, queue_name = ''b''\<rparr>]\<rparr>"

definition demo_unkillable :: master where
  "demo_unkillable = demo_master\<lparr>workers := [\<lparr>wid = 7, pid = 666, queue_name = ''a''\<rparr>]\<rparr>"

definition demo_draining :: master where
  "demo_draining = demo_master\<lparr>shutdown_pending := True\<rparr>"

section \<open>Properties of the queue spec parser\<close>













lemma split_no_sep: "c \<notin> set x \<Longrightarrow> split c x = [x]"
  by (induction x) auto

lemma split_append_sep: "c \<notin> set x \<Longrightarrow> split c (x @ c # r) = x # split c r"
  by (induction x) auto

lemma split_join:
  "names \<noteq> [] \<Longrightarrow> \<forall>n \<in> set names. c \<notin> set n \<Longrightarrow> split c (join [c] names) = names"
  by (induction "[c]" names rule: join.induct) (auto simp: split_no_sep split_append_sep)

lemma dropWhile_id: "xs = [] \<or> \<not> P (hd xs) \<Longrightarrow> dropWhile P xs = xs"
  by (cases xs) auto

lemma strip_plain:
  assumes "n = [] \<or> (\<not> isspace (hd n) \<and> \<not> isspace (last n))"
  shows "strip n = n"
proof -
  from assms have 1: "dropWhile isspace n = n" by (intro dropWhile_id) auto
  from assms have "rev n = [] \<or> \<not> isspace (hd (rev n))" by (auto simp: hd_rev)
  then have "dropWhile isspace (rev n) = rev n" by (rule dropWhile_id)
  with 1 show ?thesis by (simp add: strip_def)
qed

lemma parse_count_plain: "CHR ''*'' \<notin> set n \<Longrightarrow> parse_count n = Inr [n]"
  by (simp add: parse_count_def split1_def)

lemma chain_plain:
  "\<forall>n \<in> set ns. plain_name n
   \<Longrightarrow> chain_from_iterable (map parse_count (map strip ns)) = Inr ns"
  by (induction ns) (auto simp: plain_name_def strip_plain parse_count_plain)

lemma parse_local_plain: "take 1 n \<noteq> ''@'' \<Longrightarrow> parse_local h n = n"
  by (simp add: parse_local_def)

text \<open>
  C5, as the code has it. The empty list of names is joined to the empty string, and
  parsing the empty string gives one empty name, not the empty list.
\<close>

theorem parse_join_empty_list:
  "parse_queues_str ''h'' (join '','' []) \<noteq> Inr []"
  by (simp add: parse_queues_str_def parse_count_def split1_def strip_def parse_local_def)

text \<open>
  C5, amended. For every list of plain queue names that is not empty (no \<open>*\<close>, no
  comma, no leading \<open>@\<close>, no whitespace at either end), parsing the names joined with
  commas returns the list unchanged.
\<close>

theorem parse_join_plain_names:
  assumes "names \<noteq> []" and "\<forall>n \<in> set names. plain_name n"
  shows "parse_queues_str h (join '','' names) = Inr names"
proof -
  from assms have "split (CHR '','') (join '','' names) = names"
    by (intro split_join) (auto simp: plain_name_def)
  moreover have "map (parse_local h) names = names"
    using assms(2) by (induction names) (auto simp: plain_name_def parse_local_plain)
  ultimately show ?thesis
    using chain_plain [OF assms(2)] by (simp add: parse_queues_str_def)
qed

theorem parse_join_plain_names_witness:
  "parse_queues_str ''h'' (join '','' [''foo'', ''bar baz'', ''''])
     = Inr [''foo'', ''bar baz'', '''']"
  using parse_join_plain_names [of "[''foo'', ''bar baz'', '''']" "''h''"]
  by (simp add: plain_name_def isspace_def)

section \<open>Properties of the Master\<close>

subsection \<open>Stopping workers\<close>

lemma stop_each_trace:
  "\<exists>k. k \<le> length ws \<and>
       snd (stop_each env ws sg m)
         = m\<lparr>trace := trace m @ map (\<lambda>w. Kill (pid w) sg) (take k ws)\<rparr> \<and>
       (fst (stop_each env ws sg m) = Inr () \<and> k = length ws \<or>
        (\<exists>errno. fst (stop_each env ws sg m) = Inl (OSError errno)) \<and> k < length ws)"
proof (induction ws arbitrary: m)
  case Nil
  show ?case by simp
next
  case (Cons w ws)
  show ?case
  proof (cases "os_kill env (trace m) (pid w) sg")
    case (Some errno)
    then show ?thesis by (intro exI [of _ 0]) simp
  next
    case None
    let ?m1 = "m\<lparr>trace := trace m @ [Kill (pid w) sg]\<rparr>"
    from Cons [where m = ?m1] obtain k where k: "k \<le> length ws"
      "snd (stop_each env ws sg ?m1)
         = ?m1\<lparr>trace := trace ?m1 @ map (\<lambda>w. Kill (pid w) sg) (take k ws)\<rparr>"
      "fst (stop_each env ws sg ?m1) = Inr () \<and> k = length ws \<or>
        (\<exists>errno. fst (stop_each env ws sg ?m1) = Inl (OSError errno)) \<and> k < length ws"
      by blast
    with None show ?thesis by (intro exI [of _ "Suc k"]) auto
  qed
qed

lemma stop_each_all:
  assumes "stop_each env ws sg m = (Inr (), m')"
  shows "m' = m\<lparr>trace := trace m @ map (\<lambda>w. Kill (pid w) sg) ws\<rparr>"
proof -
  from stop_each_trace [where ws = ws and env = env and sg = sg and m = m] obtain k where
    "snd (stop_each env ws sg m)
       = m\<lparr>trace := trace m @ map (\<lambda>w. Kill (pid w) sg) (take k ws)\<rparr>"
    "fst (stop_each env ws sg m) = Inr () \<and> k = length ws \<or>
        (\<exists>errno. fst (stop_each env ws sg m) = Inl (OSError errno)) \<and> k < length ws"
    by blast
  with assms show ?thesis by auto
qed

lemma stop_each_ok:
  "\<forall>h. \<forall>w \<in> set ws. os_kill env h (pid w) sg = None \<Longrightarrow>
   stop_each env ws sg m
     = (Inr (), m\<lparr>trace := trace m @ map (\<lambda>w. Kill (pid w) sg) ws\<rparr>)"
  by (induction ws arbitrary: m) auto

lemma stop_each_frame:
  "workers (snd (stop_each env ws sg m)) = workers m \<and>
   spawned (snd (stop_each env ws sg m)) = spawned m \<and>
   shutdown_pending (snd (stop_each env ws sg m)) = shutdown_pending m"
  using stop_each_trace [where ws = ws and env = env and sg = sg and m = m] by auto

text \<open>
  C10. \<open>stop_workers\<close> only sends signals. For every call, with or without a list of
  workers, with or without \<open>kill\<close>, whether it returns or an \<open>os.kill\<close> raises, the
  Master afterwards is the Master before with the trace of system calls extended by one
  signal for each worker of a prefix of the targets (all of them when the call returns):
  the worker set, \<open>shutdown_pending\<close>, the configuration, \<open>override_queues\<close> and the
  count of created workers are unchanged.
\<close>

theorem stop_workers_only_signals:
  "\<exists>k. k \<le> length (case ws of None \<Rightarrow> workers m | Some l \<Rightarrow> l) \<and>
     snd (stop_workers env ws kill m)
       = m\<lparr>trace := trace m @ map (\<lambda>w. Kill (pid w) (if kill then SIGKILL else SIGTERM))
                               (take k (case ws of None \<Rightarrow> workers m | Some l \<Rightarrow> l))\<rparr> \<and>
     (fst (stop_workers env ws kill m) = Inr () \<and>
        k = length (case ws of None \<Rightarrow> workers m | Some l \<Rightarrow> l) \<or>
      (\<exists>errno. fst (stop_workers env ws kill m) = Inl (OSError errno)) \<and>
        k < length (case ws of None \<Rightarrow> workers m | Some l \<Rightarrow> l)) \<and>
     workers (snd (stop_workers env ws kill m)) = workers m \<and>
     shutdown_pending (snd (stop_workers env ws kill m)) = shutdown_pending m \<and>
     config (snd (stop_workers env ws kill m)) = config m \<and>
     override_queues (snd (stop_workers env ws kill m)) = override_queues m \<and>
     spawned (snd (stop_workers env ws kill m)) = spawned m"
proof -
  let ?ws = "case ws of None \<Rightarrow> workers m | Some l \<Rightarrow> l"
  let ?sg = "if kill then SIGKILL else SIGTERM"
  from stop_each_trace [where ws = ?ws and env = env and sg = ?sg and m = m]
  obtain k where k: "k \<le> length ?ws"
    "snd (stop_each env ?ws ?sg m)
       = m\<lparr>trace := trace m @ map (\<lambda>w. Kill (pid w) ?sg) (take k ?ws)\<rparr>"
    "fst (stop_each env ?ws ?sg m) = Inr () \<and> k = length ?ws \<or>
        (\<exists>errno. fst (stop_each env ?ws ?sg m) = Inl (OSError errno)) \<and> k < length ?ws"
    by blast
  show ?thesis
    unfolding stop_workers_def
    by (rule exI [of _ k]) (simp add: k)
qed

theorem stop_workers_only_signals_witness:
  "workers (snd (stop_workers demo_env None True demo_master)) = workers demo_master \<and>
   shutdown_pending (snd (stop_workers demo_env None True demo_master))
     = shutdown_pending demo_master \<and>
   spawned (snd (stop_workers demo_env None True demo_master)) = spawned demo_master"
  using stop_workers_only_signals [where env = demo_env and ws = None and kill = True
      and m = demo_master]
  by blast

subsection \<open>The interrupt signal\<close>

text \<open>
  C8, as the code has it. With standard input a terminal and no shutdown pending, when
  \<open>os.kill\<close> fails for the first worker of the set (its process is gone, errno 3), the
  interrupt handler raises that \<open>OSError\<close> after setting \<open>shutdown_pending\<close>: no worker
  has been sent a signal. The same happens on the cold path, with a shutdown pending.
\<close>

theorem handle_sigint_aborts_on_failed_kill:
  "isatty demo_env \<and> \<not> shutdown_pending demo_stale \<and>
   handle_sigint demo_env demo_stale
     = (Inl (OSError 3), demo_stale\<lparr>shutdown_pending := True\<rparr>) \<and>
   trace (snd (handle_sigint demo_env demo_stale)) = trace demo_stale \<and>
   handle_sigint demo_env (demo_stale\<lparr>shutdown_pending := True\<rparr>)
     = (Inl (OSError 3), demo_stale\<lparr>shutdown_pending := True\<rparr>)"
  by (simp add: handle_sigint_def handle_sigterm_def handle_sigquit_def stop_workers_def
      demo_stale_def demo_master_def demo_env_def)

text \<open>
  C8, amended. On an interrupt, when standard input is a terminal and no shutdown is
  pending, the handler does what the terminate handler does, and otherwise what the quit
  handler does; \<open>shutdown_pending\<close> is set afterwards in every case, so a second
  interrupt does what the quit handler does. Provided that \<open>os.kill\<close> fails for no
  worker of the set, the first case returns with \<open>shutdown_pending\<close> set and SIGTERM sent
  once to every worker (warm shutdown), the other case returns with \<open>shutdown_pending\<close>
  set and SIGKILL sent once to every worker (cold shutdown), and a second interrupt after
  a warm shutdown sends SIGKILL to every worker.
\<close>

theorem handle_sigint_warm_then_cold:
  "(isatty env \<and> \<not> shutdown_pending m \<longrightarrow> handle_sigint env m = handle_sigterm env m) \<and>
   (\<not> (isatty env \<and> \<not> shutdown_pending m) \<longrightarrow> handle_sigint env m = handle_sigquit env m) \<and>
   shutdown_pending (snd (handle_sigint env m)) \<and>
   handle_sigint env (snd (handle_sigint env m))
     = handle_sigquit env (snd (handle_sigint env m)) \<and>
   (isatty env \<and> \<not> shutdown_pending m \<and>
    (\<forall>h. \<forall>w \<in> set (workers m). os_kill env h (pid w) SIGTERM = None) \<longrightarrow>
      handle_sigint env m =
        (Inr (), m\<lparr>shutdown_pending := True,
                   trace := trace m @ map (\<lambda>w. Kill (pid w) SIGTERM) (workers m)\<rparr>)) \<and>
   (\<not> (isatty env \<and> \<not> shutdown_pending m) \<and>
    (\<forall>h. \<forall>w \<in> set (workers m). os_kill env h (pid w) SIGKILL = None) \<longrightarrow>
      handle_sigint env m =
        (Inr (), m\<lparr>shutdown_pending := True,
                   trace := trace m @ map (\<lambda>w. Kill (pid w) SIGKILL) (workers m)\<rparr>)) \<and>
   (isatty env \<and> \<not> shutdown_pending m \<and>
    (\<forall>h. \<forall>w \<in> set (workers m). \<forall>sg. os_kill env h (pid w) sg = None) \<longrightarrow>
      handle_sigint env (snd (handle_sigint env m)) =
        (Inr (), m\<lparr>shutdown_pending := True,
                   trace := trace m @ map (\<lambda>w. Kill (pid w) SIGTERM) (workers m)
                                   @ map (\<lambda>w. Kill (pid w) SIGKILL) (workers m)\<rparr>))"
proof -
  have pending:
    "shutdown_pending (snd (stop_workers env None k (m\<lparr>shutdown_pending := True\<rparr>)))" for k
    using stop_each_frame [where ws = "workers m" and env = env
        and sg = "if k then SIGKILL else SIGTERM" and m = "m\<lparr>shutdown_pending := True\<rparr>"]
    by (simp add: stop_workers_def)
  have 3: "shutdown_pending (snd (handle_sigint env m))"
    using pending by (simp add: handle_sigint_def handle_sigterm_def handle_sigquit_def)
  have warm: "handle_sigterm env m =
        (Inr (), m\<lparr>shutdown_pending := True,
                   trace := trace m @ map (\<lambda>w. Kill (pid w) SIGTERM) (workers m)\<rparr>)"
    if ok: "\<forall>h. \<forall>w \<in> set (workers m). os_kill env h (pid w) SIGTERM = None"
    using stop_each_ok [OF ok, where m = "m\<lparr>shutdown_pending := True\<rparr>"]
    by (simp add: handle_sigterm_def stop_workers_def)
  have cold: "handle_sigquit env m' =
        (Inr (), m'\<lparr>shutdown_pending := True,
                   trace := trace m' @ map (\<lambda>w. Kill (pid w) SIGKILL) (workers m')\<rparr>)"
    if ok: "\<forall>h. \<forall>w \<in> set (workers m'). os_kill env h (pid w) SIGKILL = None" for m'
    using stop_each_ok [OF ok, where m = "m'\<lparr>shutdown_pending := True\<rparr>"]
    by (simp add: handle_sigquit_def stop_workers_def)
  have twice: "handle_sigint env (snd (handle_sigint env m)) =
        (Inr (), m\<lparr>shutdown_pending := True,
                   trace := trace m @ map (\<lambda>w. Kill (pid w) SIGTERM) (workers m)
                                   @ map (\<lambda>w. Kill (pid w) SIGKILL) (workers m)\<rparr>)"
    if tty: "isatty env" "\<not> shutdown_pending m"
      and ok: "\<forall>h. \<forall>w \<in> set (workers m). \<forall>sg. os_kill env h (pid w) sg = None"
  proof -
    let ?m1 = "m\<lparr>shutdown_pending := True,
                   trace := trace m @ map (\<lambda>w. Kill (pid w) SIGTERM) (workers m)\<rparr>"
    from ok have "\<forall>h. \<forall>w \<in> set (workers m). os_kill env h (pid w) SIGTERM = None" by blast
    then have first: "handle_sigint env m = (Inr (), ?m1)"
      using tty warm by (simp add: handle_sigint_def)
    from ok have "\<forall>h. \<forall>w \<in> set (workers ?m1). os_kill env h (pid w) SIGKILL = None" by simp
    then have second: "handle_sigquit env ?m1 =
        (Inr (), ?m1\<lparr>shutdown_pending := True,
                   trace := trace ?m1 @ map (\<lambda>w. Kill (pid w) SIGKILL) (workers ?m1)\<rparr>)"
      by (rule cold)
    have "handle_sigint env (snd (handle_sigint env m)) = handle_sigint env ?m1"
      by (simp only: first snd_conv)
    also have "\<dots> = handle_sigquit env ?m1"
      by (simp add: handle_sigint_def)
    also have "\<dots> = (Inr (), m\<lparr>shutdown_pending := True,
                   trace := trace m @ map (\<lambda>w. Kill (pid w) SIGTERM) (workers m)
                                   @ map (\<lambda>w. Kill (pid w) SIGKILL) (workers m)\<rparr>)"
      by (simp only: second) simp
    finally show ?thesis .
  qed
  have 1: "handle_sigint env m = handle_sigterm env m" if "isatty env \<and> \<not> shutdown_pending m"
    using that by (simp add: handle_sigint_def)
  have 2: "handle_sigint env m = handle_sigquit env m"
    if "\<not> (isatty env \<and> \<not> shutdown_pending m)"
    using that by (auto simp: handle_sigint_def)
  have 4: "handle_sigint env (snd (handle_sigint env m))
             = handle_sigquit env (snd (handle_sigint env m))"
    using 3 by (simp add: handle_sigint_def)
  have 5: "handle_sigint env m =
        (Inr (), m\<lparr>shutdown_pending := True,
                   trace := trace m @ map (\<lambda>w. Kill (pid w) SIGTERM) (workers m)\<rparr>)"
    if "isatty env \<and> \<not> shutdown_pending m"
      "\<forall>h. \<forall>w \<in> set (workers m). os_kill env h (pid w) SIGTERM = None"
    using that 1 warm by metis
  have 6: "handle_sigint env m =
        (Inr (), m\<lparr>shutdown_pending := True,
                   trace := trace m @ map (\<lambda>w. Kill (pid w) SIGKILL) (workers m)\<rparr>)"
    if "\<not> (isatty env \<and> \<not> shutdown_pending m)"
      "\<forall>h. \<forall>w \<in> set (workers m). os_kill env h (pid w) SIGKILL = None"
    using that 2 cold [of m] by metis
  from 1 2 3 4 5 6 twice show ?thesis by blast
qed

theorem handle_sigint_warm_then_cold_witness:
  "isatty demo_env \<and> \<not> shutdown_pending demo_master \<and>
   handle_sigint demo_env demo_master
     = (Inr (), demo_master\<lparr>shutdown_pending := True,
          trace := trace demo_master
             @ [Kill 100 SIGTERM, Kill 101 SIGTERM, Kill 102 SIGTERM]\<rparr>) \<and>
   handle_sigint demo_env (snd (handle_sigint demo_env demo_master))
     = (Inr (), demo_master\<lparr>shutdown_pending := True,
          trace := trace demo_master
             @ [Kill 100 SIGTERM, Kill 101 SIGTERM, Kill 102 SIGTERM]
             @ [Kill 100 SIGKILL, Kill 101 SIGKILL, Kill 102 SIGKILL]\<rparr>) \<and>
   \<not> (isatty demo_env \<and> \<not> shutdown_pending demo_draining) \<and>
   handle_sigint demo_env demo_draining
     = (Inr (), demo_draining\<lparr>shutdown_pending := True,
          trace := trace demo_draining
             @ [Kill 100 SIGKILL, Kill 101 SIGKILL, Kill 102 SIGKILL]\<rparr>)"
proof -
  have h: "isatty demo_env" "\<not> shutdown_pending demo_master"
    "\<not> (isatty demo_env \<and> \<not> shutdown_pending demo_draining)"
    by (simp_all add: demo_env_def demo_master_def demo_draining_def)
  have ok: "\<forall>h. \<forall>w \<in> set (workers demo_master). \<forall>sg. os_kill demo_env h (pid w) sg = None"
    by (simp add: demo_env_def demo_master_def)
  then have ok1: "\<forall>h. \<forall>w \<in> set (workers demo_master). os_kill demo_env h (pid w) SIGTERM = None"
    by blast
  have ok2: "\<forall>h. \<forall>w \<in> set (workers demo_draining). os_kill demo_env h (pid w) SIGKILL = None"
    by (simp add: demo_env_def demo_master_def demo_draining_def)
  have ws: "map (\<lambda>w. Kill (pid w) SIGTERM) (workers demo_master)
              = [Kill 100 SIGTERM, Kill 101 SIGTERM, Kill 102 SIGTERM]"
    "map (\<lambda>w. Kill (pid w) SIGKILL) (workers demo_master)
              = [Kill 100 SIGKILL, Kill 101 SIGKILL, Kill 102 SIGKILL]"
    "map (\<lambda>w. Kill (pid w) SIGKILL) (workers demo_draining)
              = [Kill 100 SIGKILL, Kill 101 SIGKILL, Kill 102 SIGKILL]"
    by (simp_all add: demo_master_def demo_draining_def)
  note T = handle_sigint_warm_then_cold [where env = demo_env and m = demo_master]
  note U = handle_sigint_warm_then_cold [where env = demo_env and m = demo_draining]
  from T h(1,2) ok1 have "handle_sigint demo_env demo_master
     = (Inr (), demo_master\<lparr>shutdown_pending := True,
          trace := trace demo_master
             @ map (\<lambda>w. Kill (pid w) SIGTERM) (workers demo_master)\<rparr>)"
    by blast
  then have a: "handle_sigint demo_env demo_master
     = (Inr (), demo_master\<lparr>shutdown_pending := True,
          trace := trace demo_master
             @ [Kill 100 SIGTERM, Kill 101 SIGTERM, Kill 102 SIGTERM]\<rparr>)"
    by (simp only: ws)
  from T h(1,2) ok have "handle_sigint demo_env (snd (handle_sigint demo_env demo_master))
     = (Inr (), demo_master\<lparr>shutdown_pending := True,
          trace := trace demo_master
             @ map (\<lambda>w. Kill (pid w) SIGTERM) (workers demo_master)
             @ map (\<lambda>w. Kill (pid w) SIGKILL) (workers demo_master)\<rparr>)"
    by blast
  then have b: "handle_sigint demo_env (snd (handle_sigint demo_env demo_master))
     = (Inr (), demo_master\<lparr>shutdown_pending := True,
          trace := trace demo_master
             @ [Kill 100 SIGTERM, Kill 101 SIGTERM, Kill 102 SIGTERM]
             @ [Kill 100 SIGKILL, Kill 101 SIGKILL, Kill 102 SIGKILL]\<rparr>)"
    by (simp only: ws)
  from U h(3) ok2 have "handle_sigint demo_env demo_draining
     = (Inr (), demo_draining\<lparr>shutdown_pending := True,
          trace := trace demo_draining
             @ map (\<lambda>w. Kill (pid w) SIGKILL) (workers demo_draining)\<rparr>)"
    by blast
  then have c: "handle_sigint demo_env demo_draining
     = (Inr (), demo_draining\<lparr>shutdown_pending := True,
          trace := trace demo_draining
             @ [Kill 100 SIGKILL, Kill 101 SIGKILL, Kill 102 SIGKILL]\<rparr>)"
    by (simp only: ws)
  from h a b c show ?thesis by blast
qed

subsection \<open>The monitor loop while shutting down\<close>

lemma remove1_past_prefix: "x \<notin> set xs \<Longrightarrow> remove1 x (xs @ x # ys) = xs @ ys"
  by (induction xs) auto







subsection \<open>Killing the process group of a dead worker\<close>

lemma kill_pg_fatal:
  "os_killpg env (trace m) (pid w) SIGKILL = Some errno \<Longrightarrow> errno \<noteq> 3
   \<Longrightarrow> kill_pg env w m = (Inl (OSError errno), m)"
  by (simp add: kill_pg_def)

lemma wait_tick_alive_prefix:
  "\<forall>a \<in> set A. is_alive env t (wid a) \<Longrightarrow>
   wait_tick env t (A @ ws) b m = wait_tick env t ws (b \<or> A \<noteq> []) m"
  by (induction A arbitrary: b) auto

lemma wait_tick_fatal:
  assumes "\<forall>a \<in> set A. is_alive env t (wid a)" and "\<not> is_alive env t (wid w)"
    and "\<not> shutdown_pending m"
    and "os_killpg env (trace m) (pid w) SIGKILL = Some errno" and "errno \<noteq> 3"
  shows "wait_tick env t (A @ w # ws) b m = (Inl (OSError errno), m)"
  using assms by (simp add: wait_tick_alive_prefix kill_pg_fatal)

text \<open>
  C7. When the process group of a worker is killed: if \<open>os.killpg\<close> succeeds the kill
  is done; if it fails with errno 3 (no such process) the error is swallowed and
  \<open>_kill_pg\<close> returns as after a success, nothing changed; if it fails with any other
  errno, \<open>_kill_pg\<close> raises that \<open>OSError\<close>, and when this happens for the first dead
  worker of a tick of the monitor loop (no shutdown pending), the error leaves the loop
  and reaches the caller of \<open>_wait_for_workers\<close>.
\<close>

theorem kill_pg_swallows_only_esrch:
  "(os_killpg env (trace m) (pid w) SIGKILL = None \<longrightarrow>
      kill_pg env w m = (Inr (), m\<lparr>trace := trace m @ [KillPg (pid w) SIGKILL]\<rparr>)) \<and>
   (os_killpg env (trace m) (pid w) SIGKILL = Some 3 \<longrightarrow> kill_pg env w m = (Inr (), m)) \<and>
   (\<forall>errno. os_killpg env (trace m) (pid w) SIGKILL = Some errno \<and> errno \<noteq> 3 \<longrightarrow>
      kill_pg env w m = (Inl (OSError errno), m) \<and>
      ((\<forall>a \<in> set A. is_alive env t (wid a)) \<and> \<not> is_alive env t (wid w) \<and>
       \<not> shutdown_pending m \<and> workers m = A @ w # ws \<longrightarrow>
         wait_loop env t m = Some (Inl (OSError errno), m)))"
proof -
  have "wait_loop env t m = Some (Inl (OSError errno), m)"
    if "os_killpg env (trace m) (pid w) SIGKILL = Some errno" "errno \<noteq> 3"
      "\<forall>a \<in> set A. is_alive env t (wid a)" "\<not> is_alive env t (wid w)"
      "\<not> shutdown_pending m" "workers m = A @ w # ws" for errno
    using that wait_tick_fatal [of A env t w m errno ws False]
    by (subst wait_loop.simps) simp
  then show ?thesis
    by (auto simp: kill_pg_def)
qed

theorem kill_pg_swallows_only_esrch_witness:
  "kill_pg demo_env \<lparr>wid = 2, pid = 102, queue_name = ''c''\<rparr> demo_master
     = (Inr (), demo_master\<lparr>trace := trace demo_master @ [KillPg 102 SIGKILL]\<rparr>) \<and>
   kill_pg demo_env \<lparr>wid = 1, pid = 101, queue_name = ''b''\<rparr> demo_master
     = (Inr (), demo_master) \<and>
   kill_pg demo_env \<lparr>wid = 7, pid = 666, queue_name = ''a''\<rparr> demo_unkillable
     = (Inl (OSError 1), demo_unkillable) \<and>
   wait_loop demo_env 0 demo_unkillable = Some (Inl (OSError 1), demo_unkillable)"
proof -
  have e: "os_killpg demo_env h 102 SIGKILL = None" "os_killpg demo_env h 101 SIGKILL = Some 3"
    "os_killpg demo_env h 666 SIGKILL = Some 1" for h
    by (simp_all add: demo_env_def)
  have u: "\<not> is_alive demo_env 0 7" "\<not> shutdown_pending demo_unkillable"
    "workers demo_unkillable = [] @ \<lparr>wid = 7, pid = 666, queue_name = ''a''\<rparr> # []"
    by (simp_all add: demo_env_def demo_unkillable_def demo_master_def)
  from kill_pg_swallows_only_esrch [where env = demo_env and m = demo_master
      and w = "\<lparr>wid = 2, pid = 102, queue_name = ''c''\<rparr>"]
    kill_pg_swallows_only_esrch [where env = demo_env and m = demo_master
      and w = "\<lparr>wid = 1, pid = 101, queue_name = ''b''\<rparr>"]
    kill_pg_swallows_only_esrch [where env = demo_env and m = demo_unkillable
      and w = "\<lparr>wid = 7, pid = 666, queue_name = ''a''\<rparr>" and A = "[]" and ws = "[]"
      and t = 0]
    e u
  show ?thesis by simp
qed

subsection \<open>The monitor loop while running\<close>

lemma fresh_workers_queues: "map queue_name (fresh_workers env n qs) = qs"
  by (induction qs arbitrary: n) auto

lemma fresh_workers_wid: "w \<in> set (fresh_workers env n qs) \<Longrightarrow> n \<le> wid w"
  by (induction qs arbitrary: n) (auto, metis Suc_leD)

lemma mset_queue_names_partition:
  "mset (map queue_name (filter P xs)) + mset (map queue_name (filter (\<lambda>x. \<not> P x) xs))
     = mset (map queue_name xs)"
  by (induction xs) auto

text \<open>\<open>_kill_pg\<close> then \<open>_spawn_new_worker\<close> on one dead worker of the set.\<close>

lemma respawn_step:
  assumes "os_killpg env (trace m) (pid w) SIGKILL = None \<or>
           os_killpg env (trace m) (pid w) SIGKILL = Some 3"
    and "workers m = A @ w # rest" and "w \<notin> set A"
  shows "(case kill_pg env w m of
            (Inl e, m1) \<Rightarrow> (Inl e, m1)
          | (Inr u, m1) \<Rightarrow> spawn_new_worker env w m1)
         = (Inr (),
            m\<lparr>workers := A @ rest @ [\<lparr>wid = spawned m, pid = new_pid env (spawned m),
                                         queue_name = queue_name w\<rparr>],
               spawned := Suc (spawned m),
               trace := trace m @ (case os_killpg env (trace m) (pid w) SIGKILL of
                                     None \<Rightarrow> [KillPg (pid w) SIGKILL]
                                   | Some errno \<Rightarrow> [])
                          @ [Start (new_pid env (spawned m)) (queue_name w)]\<rparr>)"
  using assms
  by (auto simp: kill_pg_def spawn_new_worker_def new_worker_def Let_def
      py_remove_def remove1_past_prefix remove1_append)

text \<open>
  The pass seen from the middle: \<open>A\<close> holds the workers already found alive, \<open>ws\<close>
  those still to be looked at, \<open>N\<close> the replacements appended so far.
\<close>

lemma wait_tick_running_gen:
  assumes "\<not> shutdown_pending m" and "workers m = A @ ws @ N"
    and "\<forall>a \<in> set A. is_alive env t (wid a)"
    and "\<forall>h. \<forall>w \<in> set ws. \<not> is_alive env t (wid w) \<longrightarrow>
           os_killpg env h (pid w) SIGKILL = None \<or> os_killpg env h (pid w) SIGKILL = Some 3"
  shows "wait_tick env t ws b m =
           (Inr (b \<or> ws \<noteq> []),
            m\<lparr>workers := A @ filter (\<lambda>w. is_alive env t (wid w)) ws @ N
                  @ fresh_workers env (spawned m)
                      (map queue_name (filter (\<lambda>w. \<not> is_alive env t (wid w)) ws)),
               spawned := spawned m + length (filter (\<lambda>w. \<not> is_alive env t (wid w)) ws),
               trace := respawn_events env (trace m) (spawned m)
                          (filter (\<lambda>w. \<not> is_alive env t (wid w)) ws)\<rparr>)"
  using assms
proof (induction ws arbitrary: A N b m)
  case Nil
  then show ?case by simp
next
  case (Cons w ws)
  let ?dead = "filter (\<lambda>w. \<not> is_alive env t (wid w)) ws"
  show ?case
  proof (cases "is_alive env t (wid w)")
    case True
    have "wait_tick env t ws True m =
           (Inr (True \<or> ws \<noteq> []),
            m\<lparr>workers := (A @ [w]) @ filter (\<lambda>w. is_alive env t (wid w)) ws @ N
                  @ fresh_workers env (spawned m) (map queue_name ?dead),
               spawned := spawned m + length ?dead,
               trace := respawn_events env (trace m) (spawned m) ?dead\<rparr>)"
      using Cons.prems True by (intro Cons.IH) auto
    with True show ?thesis by simp
  next
    case False
    let ?nw = "\<lparr>wid = spawned m, pid = new_pid env (spawned m), queue_name = queue_name w\<rparr>"
    let ?h = "trace m @ (case os_killpg env (trace m) (pid w) SIGKILL of
                           None \<Rightarrow> [KillPg (pid w) SIGKILL]
                         | Some errno \<Rightarrow> [])
                @ [Start (new_pid env (spawned m)) (queue_name w)]"
    let ?m2 = "m\<lparr>workers := A @ (ws @ N) @ [?nw], spawned := Suc (spawned m), trace := ?h\<rparr>"
    from False Cons.prems have notin: "w \<notin> set A" by auto
    from False Cons.prems(4)
    have ok: "os_killpg env (trace m) (pid w) SIGKILL = None \<or>
              os_killpg env (trace m) (pid w) SIGKILL = Some 3"
      by simp
    have step: "(case kill_pg env w m of
                   (Inl e, m1) \<Rightarrow> (Inl e, m1)
                 | (Inr u, m1) \<Rightarrow> spawn_new_worker env w m1) = (Inr (), ?m2)"
      using respawn_step [OF ok _ notin, where rest = "ws @ N"] Cons.prems(2) by simp
    have IH: "wait_tick env t ws True ?m2 =
           (Inr (True \<or> ws \<noteq> []),
            ?m2\<lparr>workers := A @ filter (\<lambda>w. is_alive env t (wid w)) ws @ (N @ [?nw])
                  @ fresh_workers env (spawned ?m2) (map queue_name ?dead),
               spawned := spawned ?m2 + length ?dead,
               trace := respawn_events env (trace ?m2) (spawned ?m2) ?dead\<rparr>)"
      using Cons.prems by (intro Cons.IH) auto
    have "wait_tick env t (w # ws) b m =
            (case (case kill_pg env w m of
                     (Inl e, m1) \<Rightarrow> (Inl e, m1)
                   | (Inr u, m1) \<Rightarrow> spawn_new_worker env w m1) of
               (Inl e, m2) \<Rightarrow> (Inl e, m2)
             | (Inr u, m2) \<Rightarrow> wait_tick env t ws True m2)"
      using False Cons.prems(1) by (auto split: prod.splits sum.splits)
    also have "\<dots> = wait_tick env t ws True ?m2"
      by (simp only: step) simp
    finally have eq: "wait_tick env t (w # ws) b m = wait_tick env t ws True ?m2" .
    show ?thesis
      by (simp only: eq IH) (simp add: False)
  qed
qed

text \<open>
  C1, as the code has it. With no shutdown pending and one worker in the set, found dead
  at the tick, whose process group cannot be killed for a reason other than errno 3
  (here errno 1), the tick raises the \<open>OSError\<close> and replaces nothing: the Master is as
  before.
\<close>

theorem respawn_aborts_on_fatal_kill:
  "\<not> shutdown_pending demo_unkillable \<and>
   workers demo_unkillable = [\<lparr>wid = 7, pid = 666, queue_name = ''a''\<rparr>] \<and>
   \<not> is_alive demo_env 0 7 \<and>
   wait_tick demo_env 0 (workers demo_unkillable) False demo_unkillable
     = (Inl (OSError 1), demo_unkillable)"
  by (simp add: demo_unkillable_def demo_master_def demo_env_def kill_pg_def)

text \<open>
  C1, amended. While \<open>shutdown_pending\<close> is false, and provided that killing the process
  group of a worker found dead fails with no error other than errno 3, one tick of the
  monitor loop returns and leaves the workers found alive, in their order, followed by
  one new worker for each worker found dead, bound to the same queue name. The system
  calls of the tick are, for each dead worker in turn, the kill of its process group and
  then the start of its replacement. So the queue names of the set, counted with
  multiplicity, and the size of the set are as before, and a dead handle is no longer in
  the set.
\<close>

theorem respawn_keeps_pool:
  assumes "\<not> shutdown_pending m"
    and "\<forall>h. \<forall>w \<in> set (workers m). \<not> is_alive env t (wid w) \<longrightarrow>
           os_killpg env h (pid w) SIGKILL = None \<or> os_killpg env h (pid w) SIGKILL = Some 3"
  shows "\<exists>m'. wait_tick env t (workers m) False m = (Inr (workers m \<noteq> []), m') \<and>
           workers m' = filter (\<lambda>w. is_alive env t (wid w)) (workers m)
              @ fresh_workers env (spawned m)
                  (map queue_name (filter (\<lambda>w. \<not> is_alive env t (wid w)) (workers m))) \<and>
           trace m' = respawn_events env (trace m) (spawned m)
                        (filter (\<lambda>w. \<not> is_alive env t (wid w)) (workers m)) \<and>
           mset (map queue_name (workers m')) = mset (map queue_name (workers m)) \<and>
           length (workers m') = length (workers m) \<and>
           (\<forall>w \<in> set (workers m). \<not> is_alive env t (wid w) \<and> wid w < spawned m
              \<longrightarrow> w \<notin> set (workers m'))"
proof -
  let ?alive = "\<lambda>w. is_alive env t (wid w)"
  let ?dead = "filter (\<lambda>w. \<not> is_alive env t (wid w)) (workers m)"
  let ?m' = "m\<lparr>workers := filter ?alive (workers m)
                  @ fresh_workers env (spawned m) (map queue_name ?dead),
               spawned := spawned m + length ?dead,
               trace := respawn_events env (trace m) (spawned m) ?dead\<rparr>"
  have tick: "wait_tick env t (workers m) False m = (Inr (workers m \<noteq> []), ?m')"
    using wait_tick_running_gen [where A = "[]" and N = "[]" and ws = "workers m" and m = m
        and b = False and env = env and t = t] assms
    by simp
  have "mset (map queue_name (workers ?m')) =
          mset (map queue_name (filter ?alive (workers m))) + mset (map queue_name ?dead)"
    by (simp add: fresh_workers_queues)
  also have "\<dots> = mset (map queue_name (workers m))"
    by (rule mset_queue_names_partition)
  finally have q: "mset (map queue_name (workers ?m')) = mset (map queue_name (workers m))" .
  then have len: "length (workers ?m') = length (workers m)"
    by (metis length_map size_mset)
  have gone: "w \<notin> set (workers ?m')"
    if "w \<in> set (workers m)" "\<not> is_alive env t (wid w)" "wid w < spawned m" for w
    using that fresh_workers_wid [of w env "spawned m" "map queue_name ?dead"] by auto
  from tick q len gone show ?thesis
    by (intro exI [of _ ?m']) auto
qed

theorem respawn_keeps_pool_witness:
  "\<not> shutdown_pending demo_master \<and>
   (\<exists>m'. wait_tick demo_env 0 (workers demo_master) False demo_master = (Inr True, m') \<and>
      workers m' = [\<lparr>wid = 0, pid = 100, queue_name = ''a''\<rparr>,
                    \<lparr>wid = 3, pid = 103, queue_name = ''b''\<rparr>,
                    \<lparr>wid = 4, pid = 104, queue_name = ''c''\<rparr>] \<and>
      trace m' = trace demo_master @ [Start 103 ''b'', KillPg 102 SIGKILL, Start 104 ''c''] \<and>
      mset (map queue_name (workers m')) = mset (map queue_name (workers demo_master)) \<and>
      length (workers m') = length (workers demo_master))"
proof -
  have h1: "\<not> shutdown_pending demo_master" by (simp add: demo_master_def)
  have h2: "\<forall>h. \<forall>w \<in> set (workers demo_master). \<not> is_alive demo_env 0 (wid w) \<longrightarrow>
              os_killpg demo_env h (pid w) SIGKILL = None \<or>
              os_killpg demo_env h (pid w) SIGKILL = Some 3"
    by (simp add: demo_master_def demo_env_def)
  have w: "filter (\<lambda>w. is_alive demo_env 0 (wid w)) (workers demo_master)
             = [\<lparr>wid = 0, pid = 100, queue_name = ''a''\<rparr>]"
    "filter (\<lambda>w. \<not> is_alive demo_env 0 (wid w)) (workers demo_master)
             = [\<lparr>wid = 1, pid = 101, queue_name = ''b''\<rparr>,
                \<lparr>wid = 2, pid = 102, queue_name = ''c''\<rparr>]"
    "spawned demo_master = 3" "workers demo_master \<noteq> []"
    by (simp_all add: demo_master_def demo_env_def)
  have e: "os_killpg demo_env h 101 SIGKILL = Some 3" "os_killpg demo_env h 102 SIGKILL = None"
    "new_pid demo_env 3 = 103" "new_pid demo_env 4 = 104" for h
    by (simp_all add: demo_env_def)
  from respawn_keeps_pool [OF h1 h2] obtain m' where
    tick: "wait_tick demo_env 0 (workers demo_master) False demo_master
             = (Inr (workers demo_master \<noteq> []), m')"
    and ws: "workers m' = filter (\<lambda>w. is_alive demo_env 0 (wid w)) (workers demo_master)
              @ fresh_workers demo_env (spawned demo_master)
                  (map queue_name
                     (filter (\<lambda>w. \<not> is_alive demo_env 0 (wid w)) (workers demo_master)))"
    and tr: "trace m' = respawn_events demo_env (trace demo_master) (spawned demo_master)
                  (filter (\<lambda>w. \<not> is_alive demo_env 0 (wid w)) (workers demo_master))"
    and qs: "mset (map queue_name (workers m')) = mset (map queue_name (workers demo_master))"
    and len: "length (workers m') = length (workers demo_master)"
    by blast
  from tick
  have 1: "wait_tick demo_env 0 (workers demo_master) False demo_master = (Inr True, m')"
    by (simp add: w)
  from ws have 2: "workers m' = [\<lparr>wid = 0, pid = 100, queue_name = ''a''\<rparr>,
                    \<lparr>wid = 3, pid = 103, queue_name = ''b''\<rparr>,
                    \<lparr>wid = 4, pid = 104, queue_name = ''c''\<rparr>]"
    by (simp add: w e)
  from tr
  have 3: "trace m' = trace demo_master @ [Start 103 ''b'', KillPg 102 SIGKILL, Start 104 ''c'']"
    by (simp add: w e)
  from h1 1 2 3 qs len show ?thesis by blast
qed

subsection \<open>Reload\<close>

lemma start_each_fresh:
  "start_each env qs m =
     m\<lparr>workers := workers m @ fresh_workers env (spawned m) qs,
        spawned := spawned m + length qs,
        trace := trace m @ map (\<lambda>w. Start (pid w) (queue_name w))
                              (fresh_workers env (spawned m) qs)\<rparr>"
  by (induction qs arbitrary: m) (simp_all add: new_worker_def Let_def)

text \<open>
  C9, as the code has it. With a reloadable configuration whose reloaded queue spec is
  malformed, \<open>reload\<close> raises ValueError after the worker set has been emptied: no
  worker is started and no previous worker is signalled. And when \<open>os.kill\<close> fails for
  the first previous worker (its process is gone), \<open>reload\<close> raises that \<open>OSError\<close> and
  the previous workers after it are not signalled.
\<close>

theorem reload_aborts_before_stopping:
  "has_path (config demo_master) \<and>
   fst (reload demo_env_bad_spec demo_master) = Inl ValueError \<and>
   workers (snd (reload demo_env_bad_spec demo_master)) = [] \<and>
   trace (snd (reload demo_env_bad_spec demo_master)) = trace demo_master \<and>
   has_path (config demo_stale) \<and>
   fst (reload demo_env demo_stale) = Inl (OSError 3) \<and>
   Kill 101 SIGTERM \<notin> set (trace (snd (reload demo_env demo_stale)))"
  by (simp add: reload_def Let_def start_workers_def get_queues_def host_queues_def
      demo_env_bad_spec_def
      demo_env_def demo_master_def demo_stale_def parse_queues_str_def parse_count_def
      split1_def py_int_def strip_def isspace_def isdigit_def parse_local_def
      digits_value_def digit_value_def new_worker_def stop_workers_def numeral_2_eq_2)

text \<open>
  C9, amended. With a reloadable configuration, provided that the queue spec found after
  the reload parses (to the list \<open>qs\<close>) and that \<open>os.kill\<close> fails for none of the
  previous workers, \<open>reload\<close> returns with the reloaded configuration, with a worker set
  made of one fresh worker for each name of \<open>qs\<close>, in order, and it has started these
  workers and then sent SIGTERM once to each worker of the previous set, in order. With a
  configuration that is not reloadable, \<open>reload\<close> is \<open>stop_workers\<close> on the current
  worker set: the set is unchanged and no worker is created.
\<close>

theorem reload_replaces_worker_set:
  "(has_path (config m) \<and>
    parse_queues_str (hostname env)
       (get_queues env (m\<lparr>config := config_reload env (config m)\<rparr>)) = Inr qs \<and>
    (\<forall>h. \<forall>w \<in> set (workers m). os_kill env h (pid w) SIGTERM = None)
    \<longrightarrow> reload env m =
          (Inr (),
           m\<lparr>config := config_reload env (config m),
              workers := fresh_workers env (spawned m) qs,
              spawned := spawned m + length qs,
              trace := trace m
                 @ map (\<lambda>w. Start (pid w) (queue_name w)) (fresh_workers env (spawned m) qs)
                 @ map (\<lambda>w. Kill (pid w) SIGTERM) (workers m)\<rparr>)) \<and>
   (\<not> has_path (config m)
    \<longrightarrow> reload env m = stop_workers env None False m \<and>
        workers (snd (reload env m)) = workers m \<and>
        spawned (snd (reload env m)) = spawned m)"
proof -
  have a: "reload env m =
          (Inr (),
           m\<lparr>config := config_reload env (config m),
              workers := fresh_workers env (spawned m) qs,
              spawned := spawned m + length qs,
              trace := trace m
                 @ map (\<lambda>w. Start (pid w) (queue_name w)) (fresh_workers env (spawned m) qs)
                 @ map (\<lambda>w. Kill (pid w) SIGTERM) (workers m)\<rparr>)"
    if hp: "has_path (config m)"
      and ps: "parse_queues_str (hostname env)
         (get_queues env (m\<lparr>config := config_reload env (config m)\<rparr>)) = Inr qs"
      and ok: "\<forall>h. \<forall>w \<in> set (workers m). os_kill env h (pid w) SIGTERM = None"
  proof -
    let ?m2 = "m\<lparr>config := config_reload env (config m), workers := []\<rparr>"
    have gq: "get_queues env ?m2
                = get_queues env (m\<lparr>config := config_reload env (config m)\<rparr>)"
      by (simp add: get_queues_def host_queues_def split: option.splits)
    have st: "start_workers env ?m2 = (Inr (), start_each env qs ?m2)"
      using ps by (simp add: start_workers_def gq)
    show ?thesis
      using hp
      by (simp add: reload_def Let_def st stop_workers_def stop_each_ok [OF ok]
          start_each_fresh)
  qed
  have b: "reload env m = stop_workers env None False m \<and>
        workers (snd (reload env m)) = workers m \<and>
        spawned (snd (reload env m)) = spawned m"
    if "\<not> has_path (config m)"
    using that stop_each_frame [where ws = "workers m" and env = env and sg = SIGTERM and m = m]
    by (simp add: reload_def stop_workers_def)
  from a b show ?thesis by blast
qed

theorem reload_replaces_worker_set_witness:
  "has_path (config demo_master) \<and>
   reload demo_env demo_master =
     (Inr (),
      demo_master\<lparr>config := config_reload demo_env (config demo_master),
         workers := [\<lparr>wid = 3, pid = 103, queue_name = ''a''\<rparr>,
                     \<lparr>wid = 4, pid = 104, queue_name = ''a''\<rparr>,
                     \<lparr>wid = 5, pid = 105, queue_name = ''b_h''\<rparr>],
         spawned := 6,
         trace := trace demo_master
                 @ [Start 103 ''a'', Start 104 ''a'', Start 105 ''b_h'']
                 @ [Kill 100 SIGTERM, Kill 101 SIGTERM, Kill 102 SIGTERM]\<rparr>) \<and>
   \<not> has_path (config (demo_master\<lparr>config := (config demo_master)\<lparr>has_path := False\<rparr>\<rparr>)) \<and>
   workers (snd (reload demo_env
                   (demo_master\<lparr>config := (config demo_master)\<lparr>has_path := False\<rparr>\<rparr>)))
     = workers demo_master"
proof -
  let ?fixed = "demo_master\<lparr>config := (config demo_master)\<lparr>has_path := False\<rparr>\<rparr>"
  have h1: "has_path (config demo_master)" by (simp add: demo_master_def)
  have h2: "parse_queues_str (hostname demo_env)
       (get_queues demo_env (demo_master\<lparr>config := config_reload demo_env (config demo_master)\<rparr>))
       = Inr [''a'', ''a'', ''b_h'']"
    by (simp add: get_queues_def host_queues_def demo_env_def demo_master_def
        parse_queues_str_def
        parse_count_def split1_def py_int_def strip_def isspace_def isdigit_def
        parse_local_def digits_value_def digit_value_def numeral_2_eq_2)
  have h3: "\<forall>h. \<forall>w \<in> set (workers demo_master). os_kill demo_env h (pid w) SIGTERM = None"
    by (simp add: demo_env_def demo_master_def)
  have h4: "\<not> has_path (config ?fixed)" "workers ?fixed = workers demo_master" by simp_all
  have v: "spawned demo_master = 3" "new_pid demo_env n = 100 + n"
    "map (\<lambda>w. Kill (pid w) SIGTERM) (workers demo_master)
       = [Kill 100 SIGTERM, Kill 101 SIGTERM, Kill 102 SIGTERM]" for n
    by (simp_all add: demo_env_def demo_master_def)
  from reload_replaces_worker_set [where env = demo_env and m = demo_master
      and qs = "[''a'', ''a'', ''b_h'']"] h1 h2 h3
  have "reload demo_env demo_master =
     (Inr (),
      demo_master\<lparr>config := config_reload demo_env (config demo_master),
         workers := fresh_workers demo_env (spawned demo_master) [''a'', ''a'', ''b_h''],
         spawned := spawned demo_master + length [''a'', ''a'', ''b_h''],
         trace := trace demo_master
            @ map (\<lambda>w. Start (pid w) (queue_name w))
                (fresh_workers demo_env (spawned demo_master) [''a'', ''a'', ''b_h''])
            @ map (\<lambda>w. Kill (pid w) SIGTERM) (workers demo_master)\<rparr>)"
    by blast
  then have a: "reload demo_env demo_master =
     (Inr (),
      demo_master\<lparr>config := config_reload demo_env (config demo_master),
         workers := [\<lparr>wid = 3, pid = 103, queue_name = ''a''\<rparr>,
                     \<lparr>wid = 4, pid = 104, queue_name = ''a''\<rparr>,
                     \<lparr>wid = 5, pid = 105, queue_name = ''b_h''\<rparr>],
         spawned := 6,
         trace := trace demo_master
                 @ [Start 103 ''a'', Start 104 ''a'', Start 105 ''b_h'']
                 @ [Kill 100 SIGTERM, Kill 101 SIGTERM, Kill 102 SIGTERM]\<rparr>)"
    by (simp add: v)
  from reload_replaces_worker_set [where env = demo_env and m = ?fixed] h4(1)
  have "workers (snd (reload demo_env ?fixed)) = workers ?fixed"
    by blast
  with h4(2) have b: "workers (snd (reload demo_env ?fixed)) = workers demo_master"
    by (simp only:)
  from h1 a h4(1) b show ?thesis by blast
qed

subsection \<open>Commands from the manager\<close>

lemma master_getattr_None:
  "master_getattr env f = None
     \<longleftrightarrow> f \<notin> set master_attr_names \<and> f \<notin> set (inherited_attrs env)"
  by (auto simp: master_getattr_def master_attr_names_def)

text \<open>
  C2, as the code has it. A message naming a command that the Master does not have makes
  \<open>getattr\<close> raise AttributeError; nothing around the call catches it, and the loop of
  the manager link ends.
\<close>

theorem unknown_command_crashes_link:
  "send_status_pass demo_env True (Some (''bogus'', [], [])) demo_master
     = Some (Ended AttributeError, demo_master)"
  by (simp add: send_status_pass_def dispatch_def master_getattr_def demo_env_def)

text \<open>
  C2, amended. The command named by an inbound message is looked up among all the
  attributes of the Master, not in a list of allowed commands: a private handler such as
  \<open>_handle_sigquit\<close> is found and called. A name that is no attribute of the Master
  raises AttributeError: no state of the Master is changed, and the error ends the loop
  of the manager link.
\<close>

theorem unknown_command_ends_link:
  "(f \<notin> set master_attr_names \<and> f \<notin> set (inherited_attrs env) \<longrightarrow>
      dispatch env (f, args, kwargs) m = Some (Inl AttributeError, m) \<and>
      send_status_pass env True (Some (f, args, kwargs)) m = Some (Ended AttributeError, m)) \<and>
   dispatch env (''_handle_sigquit'', [PNone, PNone], []) m = Some (handle_sigquit env m)"
proof -
  have "dispatch env (''_handle_sigquit'', [PNone, PNone], []) m = Some (handle_sigquit env m)"
    by (simp add: dispatch_def master_getattr_def call_method_def bind_args_def)
  moreover have "dispatch env (f, args, kwargs) m = Some (Inl AttributeError, m)"
    if "f \<notin> set master_attr_names" "f \<notin> set (inherited_attrs env)"
    using that master_getattr_None [of env f] by (simp add: dispatch_def)
  ultimately show ?thesis by (simp add: send_status_pass_def)
qed

theorem unknown_command_ends_link_witness:
  "''bogus'' \<notin> set master_attr_names \<and> ''bogus'' \<notin> set (inherited_attrs demo_env) \<and>
   dispatch demo_env (''bogus'', [PInt 1], [(''k'', PNone)]) demo_master
     = Some (Inl AttributeError, demo_master) \<and>
   send_status_pass demo_env True (Some (''bogus'', [PInt 1], [(''k'', PNone)])) demo_master
     = Some (Ended AttributeError, demo_master)"
proof -
  have h: "''bogus'' \<notin> set master_attr_names" "''bogus'' \<notin> set (inherited_attrs demo_env)"
    by (simp_all add: master_attr_names_def demo_env_def)
  from unknown_command_ends_link [where f = "''bogus''" and env = demo_env
      and args = "[PInt 1]" and kwargs = "[(''k'', PNone)]" and m = demo_master] h
  show ?thesis by simp
qed

end
